theory Spec2Isabelle
  imports Main
begin

section \<open>Messages and the values built from them\<close>

text \<open>
  The module \<^verbatim>\<open>langchain/chat_models/vertexai.py\<close> receives a list of
  \<^verbatim>\<open>BaseMessage\<close> objects and tells them apart with \<^verbatim>\<open>isinstance\<close>. A message is
  a datatype with one constructor for each class the module tests for, and one for every
  other subclass of \<^verbatim>\<open>BaseMessage\<close> (a chat or function message), which carries the
  name of its class. \<open>content\<close> is the attribute \<^verbatim>\<open>message.content\<close>.
\<close>

datatype message =
    SystemMessage (content: string)
  | HumanMessage (content: string)
  | AIMessage (content: string)
  | OtherMessage (class_name: string) (content: string)

text \<open>What an error message prints of a message: its class (\<^verbatim>\<open>type(message)\<close>) or
  its role tag (\<^verbatim>\<open>message.type\<close>).\<close>

datatype kind = KSystem | KHuman | KAI | KOther string

fun kind_of :: "message \<Rightarrow> kind" where
  "kind_of (SystemMessage c) = KSystem"
| "kind_of (HumanMessage c) = KHuman"
| "kind_of (AIMessage c) = KAI"
| "kind_of (OtherMessage n c) = KOther n"

text \<open>The vendor's \<^verbatim>\<open>ChatMessage(content=..., author=...)\<close> and
  \<^verbatim>\<open>InputOutputTextPair(input_text=..., output_text=...)\<close>. The input text of a pair
  is the loop variable \<^verbatim>\<open>input_text\<close> of \<^verbatim>\<open>_parse_examples\<close>, which starts as
  \<^verbatim>\<open>None\<close>.\<close>

datatype chat_message = ChatMessage (cm_content: string) (author: string)

datatype example_pair = InputOutputTextPair (input_text: "string option") (output_text: string)

text \<open>The dataclass \<^verbatim>\<open>_ChatHistory\<close>.\<close>

record chat_history =
  history :: "chat_message list"
  chat_context :: "string option"

text \<open>
  The failures of the module. The first five are the \<^verbatim>\<open>ValueError\<close>s it raises itself;
  the constructors name them after the place that raises, with the data the message of
  the exception prints. The last two are failures of Python itself:
  \<open>ExamplesNotMessages\<close> for a truthy value under \<^verbatim>\<open>examples\<close> that is no list
  (\<^verbatim>\<open>len\<close> raises a \<^verbatim>\<open>TypeError\<close> for a number, the checks raise for a text), and
  \<open>DuplicateKeywordArgument\<close> for the \<^verbatim>\<open>TypeError\<close> of a keyword argument given twice
  at the call of \<^verbatim>\<open>start_chat\<close>.
\<close>

datatype error =
    EmptyConversation
  | InvalidLastMessage kind
  | InvalidMessageSequence kind nat
  | InvalidExampleCount nat
  | InvalidExampleRole kind kind nat
  | ExamplesNotMessages
  | DuplicateKeywordArgument

section \<open>The history parser\<close>

text \<open>
  \<^verbatim>\<open>_parse_chat_history\<close>: the loop \<^verbatim>\<open>for i, message in enumerate(history)\<close> with its
  two local variables \<^verbatim>\<open>vertex_messages\<close> and \<^verbatim>\<open>context\<close>. The branches are in the
  order of the source; the last one raises.
\<close>

fun parse_chat_history_loop ::
  "nat \<Rightarrow> message list \<Rightarrow> chat_message list \<Rightarrow> string option \<Rightarrow> error + chat_history" where
  "parse_chat_history_loop i [] vertex_messages ctx =
     Inr \<lparr>history = vertex_messages, chat_context = ctx\<rparr>"
| "parse_chat_history_loop i (m # rest) vertex_messages ctx =
     (if i = 0 \<and> is_SystemMessage m then
        parse_chat_history_loop (Suc i) rest vertex_messages (Some (content m))
      else if is_AIMessage m then
        parse_chat_history_loop (Suc i) rest
          (vertex_messages @ [ChatMessage (content m) ''bot'']) ctx
      else if is_HumanMessage m then
        parse_chat_history_loop (Suc i) rest
          (vertex_messages @ [ChatMessage (content m) ''user'']) ctx
      else Inl (InvalidMessageSequence (kind_of m) i))"

definition parse_chat_history :: "message list \<Rightarrow> error + chat_history" where
  "parse_chat_history hist = parse_chat_history_loop 0 hist [] None"

section \<open>The example parser\<close>

text \<open>
  \<^verbatim>\<open>_parse_examples\<close>: the length check, then the loop over \<^verbatim>\<open>enumerate(examples)\<close>
  with the local variables \<^verbatim>\<open>input_text\<close> and \<^verbatim>\<open>example_pairs\<close>. The source has two
  \<^verbatim>\<open>if\<close> statements in a row, on \<^verbatim>\<open>i % 2 == 0\<close> and on \<^verbatim>\<open>i % 2 == 1\<close>.
\<close>

fun parse_examples_loop ::
  "nat \<Rightarrow> message list \<Rightarrow> string option \<Rightarrow> example_pair list \<Rightarrow> error + example_pair list" where
  "parse_examples_loop i [] inp example_pairs = Inr example_pairs"
| "parse_examples_loop i (example # rest) inp example_pairs =
     (if i mod 2 = 0 \<and> \<not> is_HumanMessage example then
        Inl (InvalidExampleRole KHuman (kind_of example) i)
      else
        let inp' = (if i mod 2 = 0 then Some (content example) else inp) in
        if i mod 2 = 1 then
          (if \<not> is_AIMessage example then
             Inl (InvalidExampleRole KAI (kind_of example) i)
           else
             parse_examples_loop (Suc i) rest inp'
               (example_pairs @ [InputOutputTextPair inp' (content example)]))
        else parse_examples_loop (Suc i) rest inp' example_pairs)"

definition parse_examples :: "message list \<Rightarrow> error + example_pair list" where
  "parse_examples examples =
     (if length examples mod 2 \<noteq> 0 then Inl (InvalidExampleCount (length examples))
      else parse_examples_loop 0 examples None [])"

section \<open>The chat orchestrator\<close>

text \<open>
  The keyword arguments and the parameters of a call are Python dictionaries from names to
  values. A value is a list of messages (the raw \<^verbatim>\<open>examples\<close>), a list of parsed pairs,
  or any other value, kept as it was written: \<open>Opaque\<close> for one that Python takes as true
  (a temperature, a token limit, a text), \<open>FalsyValue\<close> for one that Python takes as false
  (\<^verbatim>\<open>None\<close>, \<^verbatim>\<open>0\<close>, an empty text or tuple).
\<close>

datatype pvalue =
    Opaque string
  | FalsyValue string
  | MessageList "message list"
  | PairList "example_pair list"

type_synonym params = "string \<rightharpoonup> pvalue"

text \<open>
  The external client is used through \<^verbatim>\<open>start_chat\<close>, \<^verbatim>\<open>send_message\<close> and
  \<^verbatim>\<open>send_message_streaming\<close>. \<^verbatim>\<open>start_chat\<close> is called with the keyword
  \<^verbatim>\<open>context\<close> or without it. The session type \<open>'s\<close> is the client's own. A failure of
  the client is not part of the model: its operations return.
\<close>

datatype context_arg = NoContext | Context "string option"

record 's client =
  start_chat :: "context_arg \<Rightarrow> chat_message list \<Rightarrow> params \<Rightarrow> 's"
  send_message :: "'s \<Rightarrow> string \<Rightarrow> params \<Rightarrow> string"
  send_message_streaming :: "'s \<Rightarrow> string \<Rightarrow> params \<Rightarrow> string list"

text \<open>What the module does to the outside, in order: the calls on the client with their
  arguments, and the tokens reported to the run manager.\<close>

datatype client_call =
    StartChat context_arg "chat_message list" params
  | SendMessage string params
  | SendMessageStreaming string params
  | OnLlmNewToken string

text \<open>The fields of \<^verbatim>\<open>ChatVertexAI\<close> that \<^verbatim>\<open>_generate\<close> and \<^verbatim>\<open>_stream\<close> read.
  \<^verbatim>\<open>_default_params\<close> and \<^verbatim>\<open>is_codey_model\<close> are properties of the base class
  \<^verbatim>\<open>_VertexAICommon\<close>; they are taken as given.\<close>

record 's chat_vertex_ai =
  streaming :: "bool option"
  is_codey_model :: bool
  default_params :: params
  client :: "'s client"

datatype message_chunk = AIMessageChunk string

datatype generation = ChatGeneration message | ChatGenerationChunk message_chunk

datatype chat_result = ChatResult (generations: "generation list")

text \<open>
  Modelled from the spec: \<^verbatim>\<open>_enforce_stop_words\<close> is a method of \<^verbatim>\<open>_VertexAICommon\<close>
  in \<^verbatim>\<open>langchain/llms/vertexai.py\<close>, which is not among the sources. The spec: the first
  occurrence of any configured stop string truncates the text at that point; with no stop
  word the text is unchanged.
\<close>

fun starts_with :: "string \<Rightarrow> string \<Rightarrow> bool" where
  "starts_with text [] = True"
| "starts_with [] (c # w) = False"
| "starts_with (t # text) (c # w) = (t = c \<and> starts_with text w)"

fun truncate_at_stop :: "string list \<Rightarrow> string \<Rightarrow> string" where
  "truncate_at_stop ws [] = []"
| "truncate_at_stop ws (c # text) =
     (if list_ex (starts_with (c # text)) ws then [] else c # truncate_at_stop ws text)"

definition enforce_stop_words :: "string \<Rightarrow> string list option \<Rightarrow> string" where
  "enforce_stop_words text stop =
     (case stop of None \<Rightarrow> text | Some ws \<Rightarrow> truncate_at_stop ws text)"

text \<open>
  Lines 157 to 159 and 189 to 191: \<^verbatim>\<open>examples = kwargs.get("examples", None)\<close>, and
  only when it is truthy \<^verbatim>\<open>params["examples"] = _parse_examples(examples)\<close>. A missing
  keyword, an empty list and every other falsy value leave the parameters as they are. A
  list of pairs that is not empty holds no message: \<^verbatim>\<open>_parse_examples\<close> fails on its
  length when that is odd, and on its first element otherwise. For any other truthy value
  Python fails inside \<^verbatim>\<open>_parse_examples\<close>.
\<close>

definition with_examples :: "params \<Rightarrow> params \<Rightarrow> error + params" where
  "with_examples kwargs params =
     (case kwargs ''examples'' of
        None \<Rightarrow> Inr params
      | Some (MessageList examples) \<Rightarrow>
          (if examples = [] then Inr params
           else (case parse_examples examples of
                   Inl e \<Rightarrow> Inl e
                 | Inr pairs \<Rightarrow> Inr (params(''examples'' \<mapsto> PairList pairs))))
      | Some (PairList pairs) \<Rightarrow>
          (if pairs = [] then Inr params
           else if length pairs mod 2 \<noteq> 0 then Inl (InvalidExampleCount (length pairs))
           else Inl (InvalidExampleRole KHuman (KOther ''InputOutputTextPair'') 0))
      | Some (FalsyValue v) \<Rightarrow> Inr params
      | Some (Opaque v) \<Rightarrow> Inl ExamplesNotMessages)"

text \<open>
  Lines 161 to 165 and 194 to 198 call \<^verbatim>\<open>start_chat\<close> with the keyword
  \<^verbatim>\<open>message_history\<close>, for a model that is not a code model also with the keyword
  \<^verbatim>\<open>context\<close>, and with \<^verbatim>\<open>**params\<close>. When the parameters hold one of the keywords
  given by name, Python raises a \<^verbatim>\<open>TypeError\<close> at the call and the client is not reached.
\<close>

definition duplicate_keyword :: "'s chat_vertex_ai \<Rightarrow> params \<Rightarrow> bool" where
  "duplicate_keyword self params =
     (''message_history'' \<in> dom params
      \<or> (''context'' \<in> dom params \<and> \<not> is_codey_model self))"

text \<open>\<^verbatim>\<open>history.context if history.context else None\<close>: an empty string is falsy.\<close>

definition context_or_none :: "string option \<Rightarrow> string option" where
  "context_or_none c = (if c \<noteq> None \<and> c \<noteq> Some [] then c else None)"

text \<open>
  \<^verbatim>\<open>_stream\<close> is a generator: its body runs when the sequence is pulled. The model gives
  the outcome of pulling it to the end, as \<^verbatim>\<open>list(self._stream(...))\<close> does: the chunks
  or the error, and what was done to the outside. \<open>run_manager\<close> says whether a run
  manager was passed.
\<close>

definition stream ::
  "'s chat_vertex_ai \<Rightarrow> message list \<Rightarrow> string list option \<Rightarrow> bool \<Rightarrow> params \<Rightarrow>
   (error + generation list) \<times> client_call list" where
  "stream self messages stop run_manager kwargs =
     (if messages = [] then (Inl EmptyConversation, [])
      else
        let question = last messages in
        if \<not> is_HumanMessage question then (Inl (InvalidLastMessage (kind_of question)), [])
        else
          case parse_chat_history (butlast messages) of
            Inl e \<Rightarrow> (Inl e, [])
          | Inr hist \<Rightarrow>
              (case with_examples kwargs (default_params self ++ kwargs) of
                 Inl e \<Rightarrow> (Inl e, [])
               | Inr params \<Rightarrow>
                   if duplicate_keyword self params then (Inl DuplicateKeywordArgument, [])
                   else
                   let ctx = (if \<not> is_codey_model self
                              then Context (context_or_none (chat_context hist)) else NoContext);
                       chat = start_chat (client self) ctx (history hist) params;
                       responses = send_message_streaming (client self) chat (content question) params;
                       texts = map (\<lambda>response. enforce_stop_words response stop) responses
                   in (Inr (map (\<lambda>text. ChatGenerationChunk (AIMessageChunk text)) texts),
                       [StartChat ctx (history hist) params,
                        SendMessageStreaming (content question) params]
                       @ (if run_manager then map OnLlmNewToken texts else []))))"

text \<open>
  \<^verbatim>\<open>_generate\<close>. \<open>stream_flag\<close> is the parameter \<^verbatim>\<open>stream\<close> as the body sees it;
  \<^verbatim>\<open>self.streaming\<close> is an optional boolean, truthy when it is \<^verbatim>\<open>True\<close>.
\<close>

definition generate ::
  "'s chat_vertex_ai \<Rightarrow> message list \<Rightarrow> string list option \<Rightarrow> bool \<Rightarrow> bool option \<Rightarrow> params \<Rightarrow>
   (error + chat_result) \<times> client_call list" where
  "generate self messages stop run_manager stream_flag kwargs =
     (if (case stream_flag of Some b \<Rightarrow> b | None \<Rightarrow> streaming self = Some True) then
        (case stream self messages stop run_manager kwargs of
           (Inl e, calls) \<Rightarrow> (Inl e, calls)
         | (Inr chunks, calls) \<Rightarrow> (Inr (ChatResult chunks), calls))
      else if messages = [] then (Inl EmptyConversation, [])
      else
        let question = last messages in
        if \<not> is_HumanMessage question then (Inl (InvalidLastMessage (kind_of question)), [])
        else
          case parse_chat_history (butlast messages) of
            Inl e \<Rightarrow> (Inl e, [])
          | Inr hist \<Rightarrow>
              (case with_examples kwargs (default_params self ++ kwargs) of
                 Inl e \<Rightarrow> (Inl e, [])
               | Inr params \<Rightarrow>
                   if duplicate_keyword self params then (Inl DuplicateKeywordArgument, [])
                   else
                   let ctx = (if \<not> is_codey_model self
                              then Context (context_or_none (chat_context hist)) else NoContext);
                       chat = start_chat (client self) ctx (history hist) params;
                       response = send_message (client self) chat (content question) Map.empty;
                       text = enforce_stop_words response stop
                   in (Inr (ChatResult [ChatGeneration (AIMessage text)]),
                       [StartChat ctx (history hist) params,
                        SendMessage (content question) Map.empty])))"

text \<open>
  A call of \<^verbatim>\<open>_generate\<close>. The signature is \<^verbatim>\<open>stream: Optional[bool] = False\<close>
  (line 124): a call that does not pass the keyword binds the parameter to \<^verbatim>\<open>False\<close>.
  \<open>stream_kw\<close> is \<open>None\<close> for such a call and \<open>Some v\<close> for one that passes \<open>v\<close>.
\<close>

definition generate_call ::
  "'s chat_vertex_ai \<Rightarrow> message list \<Rightarrow> string list option \<Rightarrow> bool \<Rightarrow> bool option option \<Rightarrow>
   params \<Rightarrow> (error + chat_result) \<times> client_call list" where
  "generate_call self messages stop run_manager stream_kw kwargs =
     generate self messages stop run_manager
       (case stream_kw of None \<Rightarrow> Some False | Some v \<Rightarrow> v) kwargs"

section \<open>Notions used to state the properties\<close>

text \<open>A message that becomes a turn of the history, and the turn it becomes.\<close>

definition is_turn :: "message \<Rightarrow> bool" where
  "is_turn m = (is_AIMessage m \<or> is_HumanMessage m)"

definition to_turn :: "message \<Rightarrow> chat_message" where
  "to_turn m = ChatMessage (content m) (if is_AIMessage m then ''bot'' else ''user'')"

text \<open>An example that breaks the alternation at offset \<open>i\<close>, and the kind expected there.\<close>

definition offending :: "nat \<Rightarrow> message \<Rightarrow> bool" where
  "offending i e = (if i mod 2 = 0 then \<not> is_HumanMessage e else \<not> is_AIMessage e)"

definition expected_kind :: "nat \<Rightarrow> kind" where
  "expected_kind i = (if i mod 2 = 0 then KHuman else KAI)"

text \<open>The pairs of a flat example list, two messages at a time.\<close>

fun pairs_of :: "message list \<Rightarrow> example_pair list" where
  "pairs_of (a # b # rest) = InputOutputTextPair (Some (content a)) (content b) # pairs_of rest"
| "pairs_of es = []"

text \<open>The calls on the client among what was done to the outside (the reports to the run
  manager left out).\<close>

fun on_client :: "client_call \<Rightarrow> bool" where
  "on_client (OnLlmNewToken t) = False"
| "on_client c = True"

definition client_calls :: "client_call list \<Rightarrow> client_call list" where
  "client_calls calls = filter on_client calls"

text \<open>The argument \<^verbatim>\<open>context\<close> of \<^verbatim>\<open>start_chat\<close> for a parsed history: passed for a
  model that is not a code model, left out for a code model.\<close>

definition context_for :: "'s chat_vertex_ai \<Rightarrow> chat_history \<Rightarrow> context_arg" where
  "context_for self hist =
     (if is_codey_model self then NoContext else Context (context_or_none (chat_context hist)))"

text \<open>A client and a model to run the definitions on: the session is a unit value, the
  reply is fixed, and the stream has the three parts \<open>A\<close>, \<open>B\<close>, \<open>C\<close>.\<close>

definition abc_client :: "unit client" where
  "abc_client =
     \<lparr>start_chat = (\<lambda>c h p. ()),
      send_message = (\<lambda>s q p. ''Fine''),
      send_message_streaming = (\<lambda>s q p. [''A'', ''B'', ''C''])\<rparr>"

definition abc_model :: "bool option \<Rightarrow> unit chat_vertex_ai" where
  "abc_model flag =
     \<lparr>streaming = flag, is_codey_model = False,
      default_params = [''temperature'' \<mapsto> Opaque ''0.2''], client = abc_client\<rparr>"

definition few_shot_kwargs :: params where
  "few_shot_kwargs =
     [''top_k'' \<mapsto> Opaque ''3'',
      ''examples'' \<mapsto> MessageList [HumanMessage ''2+2'', AIMessage ''4'']]"

definition terse_scenario :: "message list" where
  "terse_scenario =
     [SystemMessage ''You are terse'', HumanMessage ''Hi'', AIMessage ''Hello'',
      HumanMessage ''How are you?'']"

section \<open>Lemmas on the two loops\<close>

lemma loop_turns_append:
  "list_all is_turn xs \<Longrightarrow>
   parse_chat_history_loop k (xs @ ys) vm ctx =
   parse_chat_history_loop (k + length xs) ys (vm @ map to_turn xs) ctx"
proof (induction xs arbitrary: k vm)
  case Nil
  then show ?case by simp
next
  case (Cons x xs)
  from Cons.prems have x: "is_turn x" and xs: "list_all is_turn xs" by simp_all
  have nosys: "\<not> is_SystemMessage x" using x by (cases x) (simp_all add: is_turn_def)
  show ?case
  proof (cases "is_AIMessage x")
    case True
    then show ?thesis using nosys Cons.IH [OF xs, of "Suc k"] by (simp add: to_turn_def)
  next
    case False
    then have "is_HumanMessage x" using x by (simp add: is_turn_def)
    then show ?thesis using False nosys Cons.IH [OF xs, of "Suc k"] by (simp add: to_turn_def)
  qed
qed

lemma loop_turns:
  "list_all is_turn xs \<Longrightarrow>
   parse_chat_history_loop k xs vm ctx = Inr \<lparr>history = vm @ map to_turn xs, chat_context = ctx\<rparr>"
  using loop_turns_append [of xs k "[]" vm ctx] by simp

lemma parse_system_first:
  "list_all is_turn rest \<Longrightarrow>
   parse_chat_history (SystemMessage c # rest) = Inr \<lparr>history = map to_turn rest, chat_context = Some c\<rparr>"
  by (simp add: parse_chat_history_def loop_turns)

lemma parse_turns_only:
  "list_all is_turn ms \<Longrightarrow>
   parse_chat_history ms = Inr \<lparr>history = map to_turn ms, chat_context = None\<rparr>"
  by (simp add: parse_chat_history_def loop_turns)

lemma loop_system_later:
  "0 < k \<Longrightarrow> is_SystemMessage m \<Longrightarrow>
   parse_chat_history_loop k (m # rest) vm ctx = Inl (InvalidMessageSequence KSystem k)"
  by (cases m) simp_all

lemma parse_system_at_aux:
  assumes i: "i < length ms" and pos: "0 < i" and sys: "is_SystemMessage (ms ! i)"
    and before: "\<forall>j<i. is_turn (ms ! j) \<or> (j = 0 \<and> is_SystemMessage (ms ! j))"
  shows "parse_chat_history ms = Inl (InvalidMessageSequence KSystem i)"
proof -
  obtain x xs where ms: "ms = x # xs" using i by (cases ms) auto
  obtain n where n: "i = Suc n" using pos by (cases i) auto
  define pre where "pre = take n xs"
  define post where "post = drop (Suc n) xs"
  have len: "n < length xs" using i n ms by simp
  have at: "xs ! n = ms ! i" using n ms by simp
  have xs: "xs = pre @ (ms ! i) # post"
    using id_take_nth_drop [OF len] at by (simp add: pre_def post_def)
  have lpre: "length pre = n" using len by (simp add: pre_def)
  have pre_turns: "list_all is_turn pre"
    unfolding list_all_length
  proof (intro allI impI)
    fix k assume k: "k < length pre"
    then have "Suc k < i" using lpre n by simp
    with before have "is_turn (ms ! Suc k)" by auto
    moreover have "pre ! k = ms ! Suc k" using k ms by (simp add: pre_def)
    ultimately show "is_turn (pre ! k)" by simp
  qed
  have x0: "is_turn x \<or> is_SystemMessage x" using before pos ms by auto
  have step: "parse_chat_history_loop (Suc 0) xs vm ctx = Inl (InvalidMessageSequence KSystem i)"
    for vm ctx
  proof -
    have "parse_chat_history_loop (Suc 0) xs vm ctx =
          parse_chat_history_loop (Suc 0 + length pre) ((ms ! i) # post) (vm @ map to_turn pre) ctx"
      using loop_turns_append [OF pre_turns, of "Suc 0" "(ms ! i) # post" vm ctx] xs by simp
    also have "\<dots> = Inl (InvalidMessageSequence KSystem i)"
      using loop_system_later [OF pos sys] lpre n by simp
    finally show ?thesis .
  qed
  show ?thesis
    using x0 step by (cases x) (simp_all add: parse_chat_history_def ms is_turn_def)
qed

lemma parse_butlast_ok_aux:
  assumes ne: "ms \<noteq> []" and lasth: "is_HumanMessage (last ms)"
    and sys0: "\<forall>i<length ms. is_SystemMessage (ms ! i) \<longrightarrow> i = 0"
    and known: "\<forall>i<length ms. \<not> is_OtherMessage (ms ! i)"
  shows "\<exists>h. parse_chat_history (butlast ms) = Inr h"
proof (cases "butlast ms")
  case Nil
  then show ?thesis by (simp add: parse_chat_history_def)
next
  case (Cons x xs)
  have lenb: "length (butlast ms) = Suc (length xs)" using Cons by simp
  have nthb: "butlast ms ! k = ms ! k" if "k < Suc (length xs)" for k
    using that lenb by (simp add: nth_butlast)
  have inms: "k < length ms" if "k < Suc (length xs)" for k
    using that lenb by simp
  have xs_turns: "list_all is_turn xs"
    unfolding list_all_length
  proof (intro allI impI)
    fix k assume k: "k < length xs"
    have eq: "xs ! k = ms ! Suc k" using nthb [of "Suc k"] k Cons by simp
    have "\<not> is_SystemMessage (ms ! Suc k)" using sys0 inms [of "Suc k"] k by auto
    moreover have "\<not> is_OtherMessage (ms ! Suc k)" using known inms [of "Suc k"] k by auto
    ultimately show "is_turn (xs ! k)"
      unfolding eq is_turn_def by (cases "ms ! Suc k") simp_all
  qed
  have x0: "x = ms ! 0" using nthb [of 0] Cons by simp
  have "\<not> is_OtherMessage x" using known inms [of 0] x0 by auto
  then show ?thesis
    using Cons xs_turns by (cases x) (simp_all add: parse_chat_history_def loop_turns)
qed

lemma examples_loop_step_ok:
  "\<not> offending i e \<Longrightarrow>
   parse_examples_loop i (e # rest) inp acc =
     (if i mod 2 = 0 then parse_examples_loop (Suc i) rest (Some (content e)) acc
      else parse_examples_loop (Suc i) rest inp (acc @ [InputOutputTextPair inp (content e)]))"
  by (simp add: offending_def Let_def split: if_splits)

lemma examples_loop_step_bad:
  "offending i e \<Longrightarrow>
   parse_examples_loop i (e # rest) inp acc = Inl (InvalidExampleRole (expected_kind i) (kind_of e) i)"
  by (auto simp add: offending_def expected_kind_def Let_def split: if_splits)

declare parse_examples_loop.simps(2) [simp del]

lemma examples_loop_pairs:
  "i mod 2 = 0 \<Longrightarrow> length es mod 2 = 0 \<Longrightarrow> \<forall>j<length es. \<not> offending (i + j) (es ! j) \<Longrightarrow>
   parse_examples_loop i es inp acc = Inr (acc @ pairs_of es)"
proof (induction es arbitrary: i inp acc rule: pairs_of.induct)
  case (1 a b rest)
  have a: "\<not> offending i a" using "1.prems"(3) by force
  have b: "\<not> offending (Suc i) b" using "1.prems"(3) [rule_format, of 1] by simp
  have odd: "Suc i mod 2 = 1" using "1.prems"(1) by presburger
  have ev: "Suc (Suc i) mod 2 = 0" using "1.prems"(1) by presburger
  have len: "length rest mod 2 = 0" using "1.prems"(2) by simp
  have rest: "\<forall>j<length rest. \<not> offending (Suc (Suc i) + j) (rest ! j)"
  proof (intro allI impI)
    fix j assume "j < length rest"
    then show "\<not> offending (Suc (Suc i) + j) (rest ! j)"
      using "1.prems"(3) [rule_format, of "Suc (Suc j)"] by simp
  qed
  show ?case
    using "1.IH" [OF ev len rest] "1.prems"(1) odd
    by (simp add: examples_loop_step_ok [OF a] examples_loop_step_ok [OF b])
qed simp_all

lemma examples_loop_first_bad:
  "j < length es \<Longrightarrow> offending (i + j) (es ! j) \<Longrightarrow> \<forall>k<j. \<not> offending (i + k) (es ! k) \<Longrightarrow>
   parse_examples_loop i es inp acc =
     Inl (InvalidExampleRole (expected_kind (i + j)) (kind_of (es ! j)) (i + j))"
proof (induction es arbitrary: i j inp acc)
  case Nil
  then show ?case by simp
next
  case (Cons e es)
  show ?case
  proof (cases j)
    case 0
    then show ?thesis using Cons.prems(2) by (simp add: examples_loop_step_bad)
  next
    case (Suc n)
    have e: "\<not> offending i e" using Cons.prems(3) Suc by force
    have n: "n < length es" using Cons.prems(1) Suc by simp
    have bad: "offending (Suc i + n) (es ! n)" using Cons.prems(2) Suc by simp
    have before: "\<forall>k<n. \<not> offending (Suc i + k) (es ! k)"
    proof (intro allI impI)
      fix k assume "k < n"
      then show "\<not> offending (Suc i + k) (es ! k)"
        using Cons.prems(3) [rule_format, of "Suc k"] Suc by simp
    qed
    show ?thesis
      using Cons.IH [OF n bad before] Suc by (simp add: examples_loop_step_ok [OF e])
  qed
qed

lemma length_pairs_of: "length (pairs_of es) = length es div 2"
  by (induction es rule: pairs_of.induct) simp_all

lemma nth_pairs_of:
  "k < length es div 2 \<Longrightarrow>
   pairs_of es ! k = InputOutputTextPair (Some (content (es ! (2 * k)))) (content (es ! (2 * k + 1)))"
proof (induction es arbitrary: k rule: pairs_of.induct)
  case (1 a b rest)
  then show ?case by (cases k) simp_all
qed simp_all

lemma first_offending:
  assumes "\<exists>i<length es. offending i (es ! i)"
  obtains j where "j < length es" "offending j (es ! j)" "\<forall>k<j. \<not> offending k (es ! k)"
proof -
  define j where "j = (LEAST i. i < length es \<and> offending i (es ! i))"
  from assms obtain i where i: "i < length es \<and> offending i (es ! i)" by blast
  have 1: "j < length es \<and> offending j (es ! j)" unfolding j_def using i by (rule LeastI)
  have 2: "\<forall>k<j. \<not> offending k (es ! k)"
  proof (intro allI impI notI)
    fix k assume k: "k < j" and o: "offending k (es ! k)"
    have "k < length es" using k 1 by simp
    then have "j \<le> k" unfolding j_def using o by (intro Least_le) simp
    then show False using k by simp
  qed
  show ?thesis using that 1 2 by blast
qed

section \<open>The history parser: properties\<close>

text \<open>
  C4. When the first message is a system message, the history parser takes its content as
  the context and leaves it out of the turns; every ai message becomes a turn of author
  \<open>bot\<close> and every human message a turn of author \<open>user\<close>, in the order of the input.
  For the messages System "You are terse", Human "Hi", AI "Hello", Human "How are you?"
  the orchestrator parses all but the last into the context "You are terse" and the turns
  (user, "Hi"), (bot, "Hello"), and asks the question "How are you?": a model that takes a
  context opens the session with exactly these and sends exactly that question (and
  reaches no client at all when its default parameters repeat a keyword of
  \<^verbatim>\<open>start_chat\<close>, where Python raises at the call).
\<close>

theorem parse_chat_history_context_and_turns:
  "(list_all is_turn rest \<longrightarrow>
      parse_chat_history (SystemMessage c # rest) =
        Inr \<lparr>history = map to_turn rest, chat_context = Some c\<rparr>)
   \<and> (list_all is_turn ms \<longrightarrow>
      parse_chat_history ms = Inr \<lparr>history = map to_turn ms, chat_context = None\<rparr>)
   \<and> parse_chat_history (butlast terse_scenario) =
        Inr \<lparr>history = [ChatMessage ''Hi'' ''user'', ChatMessage ''Hello'' ''bot''],
             chat_context = Some ''You are terse''\<rparr>
   \<and> content (last terse_scenario) = ''How are you?''
   \<and> (\<not> is_codey_model self \<longrightarrow>
      snd (generate self terse_scenario stop run_manager (Some False) Map.empty) =
        (if duplicate_keyword self (default_params self) then []
         else [StartChat (Context (Some ''You are terse''))
                 [ChatMessage ''Hi'' ''user'', ChatMessage ''Hello'' ''bot''] (default_params self),
               SendMessage ''How are you?'' Map.empty]))"
proof -
  have scen: "parse_chat_history (butlast terse_scenario) =
        Inr \<lparr>history = [ChatMessage ''Hi'' ''user'', ChatMessage ''Hello'' ''bot''],
             chat_context = Some ''You are terse''\<rparr>"
    by (simp add: terse_scenario_def parse_chat_history_def)
  have ne: "terse_scenario \<noteq> []" and lst: "last terse_scenario = HumanMessage ''How are you?''"
    by (simp_all add: terse_scenario_def)
  have orch: "snd (generate self terse_scenario stop run_manager (Some False) Map.empty) =
        (if duplicate_keyword self (default_params self) then []
         else [StartChat (Context (Some ''You are terse''))
                 [ChatMessage ''Hi'' ''user'', ChatMessage ''Hello'' ''bot''] (default_params self),
               SendMessage ''How are you?'' Map.empty])" if "\<not> is_codey_model self"
    using that by (simp add: generate_def ne lst scen with_examples_def context_or_none_def Let_def)
  show ?thesis
    using scen orch by (simp add: lst parse_system_first parse_turns_only)
qed

theorem parse_chat_history_context_and_turns_witness:
  "list_all is_turn [HumanMessage ''Hi'', AIMessage ''Hello'']
   \<and> parse_chat_history [SystemMessage ''You are terse'', HumanMessage ''Hi'', AIMessage ''Hello''] =
        Inr \<lparr>history = [ChatMessage ''Hi'' ''user'', ChatMessage ''Hello'' ''bot''],
             chat_context = Some ''You are terse''\<rparr>
   \<and> parse_chat_history [HumanMessage ''Hi'', AIMessage ''Hello''] =
        Inr \<lparr>history = [ChatMessage ''Hi'' ''user'', ChatMessage ''Hello'' ''bot''],
             chat_context = None\<rparr>
   \<and> \<not> is_codey_model (abc_model None)
   \<and> snd (generate (abc_model None) terse_scenario None False (Some False) Map.empty) =
        [StartChat (Context (Some ''You are terse''))
           [ChatMessage ''Hi'' ''user'', ChatMessage ''Hello'' ''bot'']
           [''temperature'' \<mapsto> Opaque ''0.2''],
         SendMessage ''How are you?'' Map.empty]"
  using parse_chat_history_context_and_turns
    [of "[HumanMessage ''Hi'', AIMessage ''Hello'']" "''You are terse''"
        "[HumanMessage ''Hi'', AIMessage ''Hello'']" "abc_model None" None False]
  by (simp add: is_turn_def to_turn_def abc_model_def duplicate_keyword_def)

text \<open>
  C5. A conversation that is not empty, holds only system, human and ai messages, ends in
  a human message and has a system message at index 0 only: the history parser, applied
  to all messages but the last as the orchestrator does, returns a history. It raises
  no error, so none for the message sequence.
\<close>

theorem parse_chat_history_never_fails_on_valid:
  assumes "ms \<noteq> []" and "is_HumanMessage (last ms)"
    and "\<forall>i<length ms. is_SystemMessage (ms ! i) \<longrightarrow> i = 0"
    and "\<forall>i<length ms. \<not> is_OtherMessage (ms ! i)"
  shows "(\<exists>h. parse_chat_history (butlast ms) = Inr h)
         \<and> (\<forall>k i. parse_chat_history (butlast ms) \<noteq> Inl (InvalidMessageSequence k i))"
proof -
  from parse_butlast_ok_aux [OF assms] obtain h where "parse_chat_history (butlast ms) = Inr h" ..
  then show ?thesis by simp
qed

theorem parse_chat_history_never_fails_on_valid_witness:
  "terse_scenario \<noteq> [] \<and> is_HumanMessage (last terse_scenario)
   \<and> (\<exists>h. parse_chat_history (butlast terse_scenario) = Inr h)"
proof -
  have 1: "terse_scenario \<noteq> []" and 2: "is_HumanMessage (last terse_scenario)"
    by (simp_all add: terse_scenario_def)
  have 3: "\<forall>i<length terse_scenario. is_SystemMessage (terse_scenario ! i) \<longrightarrow> i = 0"
    by (simp add: terse_scenario_def nth_Cons' less_Suc_eq)
  have 4: "\<forall>i<length terse_scenario. \<not> is_OtherMessage (terse_scenario ! i)"
    by (simp add: terse_scenario_def nth_Cons' less_Suc_eq)
  show ?thesis
    using parse_chat_history_never_fails_on_valid [OF 1 2 3 4] 1 2 by simp
qed

text \<open>
  C6. A message list with a system message at an index \<open>i\<close> greater than zero, where every
  earlier message is a human or ai message or, at index 0 only, a system message: the
  history parser fails with the error for the message sequence, which names the index
  \<open>i\<close> and the kind of the message there, a system message.
\<close>

theorem parse_chat_history_system_not_first:
  assumes "i < length ms" and "0 < i" and "is_SystemMessage (ms ! i)"
    and "\<forall>j<i. is_turn (ms ! j) \<or> (j = 0 \<and> is_SystemMessage (ms ! j))"
  shows "parse_chat_history ms = Inl (InvalidMessageSequence (kind_of (ms ! i)) i)
         \<and> kind_of (ms ! i) = KSystem"
proof -
  have "kind_of (ms ! i) = KSystem" using assms(3) by (cases "ms ! i") simp_all
  then show ?thesis using parse_system_at_aux [OF assms] by simp
qed

theorem parse_chat_history_system_not_first_witness:
  "parse_chat_history [SystemMessage ''a'', HumanMessage ''b'', SystemMessage ''c'', AIMessage ''d''] =
     Inl (InvalidMessageSequence KSystem 2)"
proof -
  let ?ms = "[SystemMessage ''a'', HumanMessage ''b'', SystemMessage ''c'', AIMessage ''d'']"
  have 1: "2 < length ?ms" and 2: "0 < (2::nat)" and 3: "is_SystemMessage (?ms ! 2)"
    by simp_all
  have 4: "\<forall>j<2. is_turn (?ms ! j) \<or> (j = 0 \<and> is_SystemMessage (?ms ! j))"
    by (simp add: is_turn_def nth_Cons' less_Suc_eq numeral_2_eq_2)
  show ?thesis
    using parse_chat_history_system_not_first [OF 1 2 3 4] by simp
qed

section \<open>The example parser: properties\<close>

text \<open>
  C7. For an example list of even length whose messages at even offsets are human and at
  odd offsets are ai, the example parser returns pairs, half as many as there are
  messages; the \<open>k\<close>-th pair has the content of the message at offset \<open>2k\<close> as its input
  and the content of the message at offset \<open>2k + 1\<close> as its output.
\<close>

theorem parse_examples_alternating:
  assumes "length es mod 2 = 0" and "\<forall>i<length es. \<not> offending i (es ! i)"
  shows "\<exists>ps. parse_examples es = Inr ps \<and> length ps = length es div 2
           \<and> (\<forall>k<length ps. input_text (ps ! k) = Some (content (es ! (2 * k)))
                           \<and> output_text (ps ! k) = content (es ! (2 * k + 1)))"
proof -
  have "parse_examples_loop 0 es None [] = Inr ([] @ pairs_of es)"
    using assms by (intro examples_loop_pairs) simp_all
  then have "parse_examples es = Inr (pairs_of es)"
    using assms(1) by (simp add: parse_examples_def)
  then show ?thesis
    by (simp add: length_pairs_of nth_pairs_of)
qed

theorem parse_examples_alternating_witness:
  "\<exists>ps. parse_examples [HumanMessage ''2+2'', AIMessage ''4''] = Inr ps \<and> length ps = 1
     \<and> input_text (ps ! 0) = Some ''2+2'' \<and> output_text (ps ! 0) = ''4''"
proof -
  let ?es = "[HumanMessage ''2+2'', AIMessage ''4'']"
  have 1: "length ?es mod 2 = 0" by simp
  have 2: "\<forall>i<length ?es. \<not> offending i (?es ! i)"
    by (simp add: offending_def nth_Cons' less_Suc_eq numeral_2_eq_2)
  from parse_examples_alternating [OF 1 2] obtain ps where
    ps: "parse_examples ?es = Inr ps" and len: "length ps = length ?es div 2"
    and each: "\<forall>k<length ps. input_text (ps ! k) = Some (content (?es ! (2 * k)))
                           \<and> output_text (ps ! k) = content (?es ! (2 * k + 1))"
    by blast
  have "length ps = 1" using len by simp
  moreover from this each have "input_text (ps ! 0) = Some ''2+2'' \<and> output_text (ps ! 0) = ''4''"
    by simp
  ultimately show ?thesis using ps by blast
qed

text \<open>
  C8. The example parser fails with the error for the example count exactly when the list
  has odd length, and the error holds that length. For a list of even length it fails
  with the error for the example role exactly when some message at an even offset is not
  human or some message at an odd offset is not ai; the error then names the first such
  offset, the kind expected there and the kind of the message found.
\<close>

theorem parse_examples_errors:
  "((\<exists>n. parse_examples es = Inl (InvalidExampleCount n)) \<longleftrightarrow> length es mod 2 \<noteq> 0)
   \<and> (length es mod 2 \<noteq> 0 \<longrightarrow> parse_examples es = Inl (InvalidExampleCount (length es)))
   \<and> (length es mod 2 = 0 \<longrightarrow>
        ((\<exists>x a i. parse_examples es = Inl (InvalidExampleRole x a i))
           \<longleftrightarrow> (\<exists>i<length es. offending i (es ! i))))
   \<and> (length es mod 2 = 0 \<longrightarrow> parse_examples es = Inl (InvalidExampleRole x a i) \<longrightarrow>
        i < length es \<and> offending i (es ! i) \<and> (\<forall>j<i. \<not> offending j (es ! j))
        \<and> x = expected_kind i \<and> a = kind_of (es ! i))"
proof (cases "length es mod 2 = 0")
  case False
  then show ?thesis by (simp add: parse_examples_def)
next
  case True
  show ?thesis
  proof (cases "\<exists>i<length es. offending i (es ! i)")
    case bad: True
    then obtain j where j: "j < length es" "offending j (es ! j)" "\<forall>k<j. \<not> offending k (es ! k)"
      by (rule first_offending)
    have "parse_examples_loop 0 es None [] =
            Inl (InvalidExampleRole (expected_kind (0 + j)) (kind_of (es ! j)) (0 + j))"
      using j by (intro examples_loop_first_bad) simp_all
    then have res: "parse_examples es = Inl (InvalidExampleRole (expected_kind j) (kind_of (es ! j)) j)"
      using True by (simp add: parse_examples_def)
    show ?thesis using True bad j res by auto
  next
    case ok: False
    have "parse_examples_loop 0 es None [] = Inr ([] @ pairs_of es)"
      using True ok by (intro examples_loop_pairs) simp_all
    then have res: "parse_examples es = Inr (pairs_of es)"
      using True by (simp add: parse_examples_def)
    show ?thesis using True ok res by simp
  qed
qed

theorem parse_examples_errors_witness:
  "parse_examples [HumanMessage ''2+2''] = Inl (InvalidExampleCount 1)
   \<and> length [HumanMessage ''2+2'', HumanMessage ''4''] mod 2 = 0
   \<and> (\<exists>x a i. parse_examples [HumanMessage ''2+2'', HumanMessage ''4''] = Inl (InvalidExampleRole x a i))
   \<and> parse_examples [HumanMessage ''2+2'', HumanMessage ''4''] = Inl (InvalidExampleRole KAI KHuman 1)
   \<and> offending 1 (HumanMessage ''4'')"
proof -
  have odd: "parse_examples [HumanMessage ''2+2''] = Inl (InvalidExampleCount 1)"
    using parse_examples_errors [of "[HumanMessage ''2+2'']"] by simp
  let ?es = "[HumanMessage ''2+2'', HumanMessage ''4'']"
  have off: "\<exists>i<length ?es. offending i (?es ! i)"
    by (rule exI [of _ 1]) (simp add: offending_def)
  have eq: "parse_examples ?es = Inl (InvalidExampleRole KAI KHuman 1)"
    by (simp add: parse_examples_def parse_examples_loop.simps)
  show ?thesis
    using parse_examples_errors [of ?es KAI KHuman 1] odd off eq by (simp add: offending_def)
qed

section \<open>The orchestrator: properties\<close>

lemma loop_context_kept:
  "0 < k \<Longrightarrow> parse_chat_history_loop k xs vm ctx = Inr h \<Longrightarrow> chat_context h = ctx"
proof (induction xs arbitrary: k vm)
  case Nil
  then show ?case by auto
next
  case (Cons x xs)
  then show ?case by (auto split: if_splits)
qed

lemma loop_index_shift:
  "0 < k \<Longrightarrow> 0 < k' \<Longrightarrow>
   (case parse_chat_history_loop k xs vm ctx of
      Inl e \<Rightarrow> \<exists>e'. parse_chat_history_loop k' xs vm ctx' = Inl e'
    | Inr h \<Rightarrow> parse_chat_history_loop k' xs vm ctx' = Inr (h\<lparr>chat_context := ctx'\<rparr>))"
proof (induction xs arbitrary: k k' vm)
  case Nil
  then show ?case by simp
next
  case (Cons x xs)
  have ih: "case parse_chat_history_loop (Suc k) xs vm' ctx of
      Inl e \<Rightarrow> \<exists>e'. parse_chat_history_loop (Suc k') xs vm' ctx' = Inl e'
    | Inr h \<Rightarrow> parse_chat_history_loop (Suc k') xs vm' ctx' = Inr (h\<lparr>chat_context := ctx'\<rparr>)"
    for vm'
    by (rule Cons.IH) simp_all
  show ?case
  proof (cases "is_AIMessage x")
    case True
    have step: "parse_chat_history_loop j (x # xs) vm c =
        parse_chat_history_loop (Suc j) xs (vm @ [ChatMessage (content x) ''bot'']) c"
      if "0 < j" for j c
      using that True by simp
    show ?thesis
      unfolding step [OF Cons.prems(1)] step [OF Cons.prems(2)] by (rule ih)
  next
    case notai: False
    show ?thesis
    proof (cases "is_HumanMessage x")
      case True
      have step: "parse_chat_history_loop j (x # xs) vm c =
          parse_chat_history_loop (Suc j) xs (vm @ [ChatMessage (content x) ''user'']) c"
        if "0 < j" for j c
        using that True notai by simp
      show ?thesis
        unfolding step [OF Cons.prems(1)] step [OF Cons.prems(2)] by (rule ih)
    next
      case False
      have step: "parse_chat_history_loop j (x # xs) vm c =
          Inl (InvalidMessageSequence (kind_of x) j)"
        if "0 < j" for j c
        using that False notai by simp
      show ?thesis
        unfolding step [OF Cons.prems(1)] step [OF Cons.prems(2)] by simp
    qed
  qed
qed

lemma prepared_stream:
  assumes "messages \<noteq> []" and "is_HumanMessage (last messages)"
    and "parse_chat_history (butlast messages) = Inr hist"
    and "with_examples kwargs (default_params self ++ kwargs) = Inr params"
    and "\<not> duplicate_keyword self params"
  shows "stream self messages stop run_manager kwargs =
    (Inr (map (\<lambda>text. ChatGenerationChunk (AIMessageChunk text))
        (map (\<lambda>response. enforce_stop_words response stop)
          (send_message_streaming (client self)
             (start_chat (client self) (context_for self hist) (history hist) params)
             (content (last messages)) params))),
     [StartChat (context_for self hist) (history hist) params,
      SendMessageStreaming (content (last messages)) params]
     @ (if run_manager
        then map OnLlmNewToken (map (\<lambda>response. enforce_stop_words response stop)
          (send_message_streaming (client self)
             (start_chat (client self) (context_for self hist) (history hist) params)
             (content (last messages)) params))
        else []))"
  using assms by (simp add: stream_def Let_def context_for_def)

lemma with_examples_other_keys:
  "with_examples kwargs params = Inr params' \<Longrightarrow> k \<noteq> ''examples'' \<Longrightarrow> params' k = params k"
  by (auto simp add: with_examples_def split: option.splits pvalue.splits if_splits sum.splits)

text \<open>
  C3. For \<^verbatim>\<open>_generate\<close>, whatever the stream flag, and for \<^verbatim>\<open>_stream\<close> (whose body runs
  when its sequence is pulled): an empty message list fails with the error for the empty
  conversation, and a list whose last message is not human fails with the error for the
  last message, which holds the kind of that message. In both cases nothing was done to
  the outside: no call on the client, no report to the run manager.
\<close>

theorem validation_before_client:
  "(messages = [] \<longrightarrow>
      generate self messages stop run_manager flag kwargs = (Inl EmptyConversation, [])
      \<and> stream self messages stop run_manager kwargs = (Inl EmptyConversation, []))
   \<and> (messages \<noteq> [] \<and> \<not> is_HumanMessage (last messages) \<longrightarrow>
      generate self messages stop run_manager flag kwargs =
        (Inl (InvalidLastMessage (kind_of (last messages))), [])
      \<and> stream self messages stop run_manager kwargs =
        (Inl (InvalidLastMessage (kind_of (last messages))), []))"
  by (simp add: generate_def stream_def)

theorem validation_before_client_witness:
  "generate (abc_model None) [] None True (Some True) Map.empty = (Inl EmptyConversation, [])
   \<and> generate (abc_model None) [] None True (Some False) Map.empty = (Inl EmptyConversation, [])
   \<and> stream (abc_model None) [] None True Map.empty = (Inl EmptyConversation, [])
   \<and> generate (abc_model None) [HumanMessage ''Hi'', AIMessage ''Hello''] None True None Map.empty =
        (Inl (InvalidLastMessage KAI), [])
   \<and> stream (abc_model None) [HumanMessage ''Hi'', AIMessage ''Hello''] None True Map.empty =
        (Inl (InvalidLastMessage KAI), [])"
  using validation_before_client [of "[]" "abc_model None" None True "Some True" Map.empty]
    validation_before_client [of "[]" "abc_model None" None True "Some False" Map.empty]
    validation_before_client [of "[HumanMessage ''Hi'', AIMessage ''Hello'']" "abc_model None"
      None True None Map.empty]
  by simp

lemma generate_delegates:
  "(case flag of Some b \<Rightarrow> b | None \<Rightarrow> streaming self = Some True) \<Longrightarrow>
   generate self messages stop run_manager flag kwargs =
     (map_sum id ChatResult (fst (stream self messages stop run_manager kwargs)),
      snd (stream self messages stop run_manager kwargs))"
  by (simp add: generate_def split: prod.splits sum.splits)

lemma prepared_generate_sync:
  assumes "\<not> (case flag of Some b \<Rightarrow> b | None \<Rightarrow> streaming self = Some True)"
    and "messages \<noteq> []" and "is_HumanMessage (last messages)"
    and "parse_chat_history (butlast messages) = Inr hist"
    and "with_examples kwargs (default_params self ++ kwargs) = Inr params"
    and "\<not> duplicate_keyword self params"
  shows "generate self messages stop run_manager flag kwargs =
    (Inr (ChatResult [ChatGeneration (AIMessage (enforce_stop_words
        (send_message (client self)
           (start_chat (client self) (context_for self hist) (history hist) params)
           (content (last messages)) Map.empty) stop))]),
     [StartChat (context_for self hist) (history hist) params,
      SendMessage (content (last messages)) Map.empty])"
  using assms by (simp add: generate_def Let_def context_for_def)

lemma no_client_calls_in_tokens:
  "filter on_client (map (\<lambda>x. OnLlmNewToken (f x)) ts) = []"
  by (induction ts) simp_all

lemma duplicate_keyword_generate:
  assumes "\<not> (case flag of Some b \<Rightarrow> b | None \<Rightarrow> streaming self = Some True)"
    and "messages \<noteq> []" and "is_HumanMessage (last messages)"
    and "parse_chat_history (butlast messages) = Inr hist"
    and "with_examples kwargs (default_params self ++ kwargs) = Inr params"
    and "duplicate_keyword self params"
  shows "generate self messages stop run_manager flag kwargs = (Inl DuplicateKeywordArgument, [])"
  using assms by (simp add: generate_def)

lemma duplicate_keyword_stream:
  assumes "messages \<noteq> []" and "is_HumanMessage (last messages)"
    and "parse_chat_history (butlast messages) = Inr hist"
    and "with_examples kwargs (default_params self ++ kwargs) = Inr params"
    and "duplicate_keyword self params"
  shows "stream self messages stop run_manager kwargs = (Inl DuplicateKeywordArgument, [])"
  using assms by (simp add: stream_def)

text \<open>
  C10. Once the checks, the history parser and the example parser have passed: on the
  sync path the calls on the client are \<^verbatim>\<open>start_chat\<close> with the merged parameters and
  \<^verbatim>\<open>send_message\<close> with the content of the question and no parameters; on the stream
  path they are \<^verbatim>\<open>start_chat\<close> with the merged parameters and
  \<^verbatim>\<open>send_message_streaming\<close> with the content of the question and the same merged
  parameters again. When the merged parameters repeat a keyword that \<^verbatim>\<open>start_chat\<close> is
  given by name, Python raises at that call and neither path reaches the client. The
  merged parameters are the defaults overridden by the keyword arguments, on every key
  but \<open>examples\<close>.
\<close>

theorem params_forwarded_once_or_twice:
  assumes "\<not> (case flag of Some b \<Rightarrow> b | None \<Rightarrow> streaming self = Some True)"
    and "messages \<noteq> []" and "is_HumanMessage (last messages)"
    and "parse_chat_history (butlast messages) = Inr hist"
    and "with_examples kwargs (default_params self ++ kwargs) = Inr params"
  shows "client_calls (snd (generate self messages stop run_manager flag kwargs)) =
           (if duplicate_keyword self params then []
            else [StartChat (context_for self hist) (history hist) params,
                  SendMessage (content (last messages)) Map.empty])
         \<and> client_calls (snd (stream self messages stop run_manager kwargs)) =
           (if duplicate_keyword self params then []
            else [StartChat (context_for self hist) (history hist) params,
                  SendMessageStreaming (content (last messages)) params])
         \<and> (\<forall>k. k \<noteq> ''examples'' \<longrightarrow> params k = (default_params self ++ kwargs) k)"
proof -
  have keys: "\<forall>k. k \<noteq> ''examples'' \<longrightarrow> params k = (default_params self ++ kwargs) k"
    using with_examples_other_keys [OF assms(5)] by blast
  show ?thesis
  proof (cases "duplicate_keyword self params")
    case True
    have "client_calls (snd (generate self messages stop run_manager flag kwargs)) = []"
      by (simp add: duplicate_keyword_generate [OF assms True] client_calls_def)
    moreover have "client_calls (snd (stream self messages stop run_manager kwargs)) = []"
      by (simp add: duplicate_keyword_stream [OF assms(2-5) True] client_calls_def)
    ultimately show ?thesis using True keys by simp
  next
    case False
    have sync: "client_calls (snd (generate self messages stop run_manager flag kwargs)) =
             [StartChat (context_for self hist) (history hist) params,
              SendMessage (content (last messages)) Map.empty]"
      by (simp add: prepared_generate_sync [OF assms False] client_calls_def)
    have str: "client_calls (snd (stream self messages stop run_manager kwargs)) =
             [StartChat (context_for self hist) (history hist) params,
              SendMessageStreaming (content (last messages)) params]"
      by (simp add: prepared_stream [OF assms(2-5) False] client_calls_def comp_def
          no_client_calls_in_tokens)
    show ?thesis using False sync str keys by simp
  qed
qed

theorem params_forwarded_once_or_twice_witness:
  "client_calls (snd (generate (abc_model None) terse_scenario None True None few_shot_kwargs)) =
     [StartChat (Context (Some ''You are terse''))
        [ChatMessage ''Hi'' ''user'', ChatMessage ''Hello'' ''bot'']
        (([''temperature'' \<mapsto> Opaque ''0.2''] ++ few_shot_kwargs)
           (''examples'' \<mapsto> PairList [InputOutputTextPair (Some ''2+2'') ''4''])),
      SendMessage ''How are you?'' Map.empty]
   \<and> client_calls (snd (stream (abc_model None) terse_scenario None True few_shot_kwargs)) =
     [StartChat (Context (Some ''You are terse''))
        [ChatMessage ''Hi'' ''user'', ChatMessage ''Hello'' ''bot'']
        (([''temperature'' \<mapsto> Opaque ''0.2''] ++ few_shot_kwargs)
           (''examples'' \<mapsto> PairList [InputOutputTextPair (Some ''2+2'') ''4''])),
      SendMessageStreaming ''How are you?''
        (([''temperature'' \<mapsto> Opaque ''0.2''] ++ few_shot_kwargs)
           (''examples'' \<mapsto> PairList [InputOutputTextPair (Some ''2+2'') ''4'']))]
   \<and> generate (abc_model None) terse_scenario None True None [''context'' \<mapsto> Opaque ''Be kind''] =
     (Inl DuplicateKeywordArgument, [])
   \<and> stream (abc_model None) terse_scenario None True [''context'' \<mapsto> Opaque ''Be kind''] =
     (Inl DuplicateKeywordArgument, [])
   \<and> client_calls (snd (generate (abc_model None) terse_scenario None True None
                           [''examples'' \<mapsto> FalsyValue ''None''])) =
     [StartChat (Context (Some ''You are terse''))
        [ChatMessage ''Hi'' ''user'', ChatMessage ''Hello'' ''bot'']
        ([''temperature'' \<mapsto> Opaque ''0.2''] ++ [''examples'' \<mapsto> FalsyValue ''None'']),
      SendMessage ''How are you?'' Map.empty]"
proof -
  let ?hist = "\<lparr>history = [ChatMessage ''Hi'' ''user'', ChatMessage ''Hello'' ''bot''],
                chat_context = Some ''You are terse''\<rparr>"
  let ?params = "([''temperature'' \<mapsto> Opaque ''0.2''] ++ few_shot_kwargs)
           (''examples'' \<mapsto> PairList [InputOutputTextPair (Some ''2+2'') ''4''])"
  have 1: "\<not> (case None of Some b \<Rightarrow> b | None \<Rightarrow> streaming (abc_model None) = Some True)"
    by (simp add: abc_model_def)
  have 2: "terse_scenario \<noteq> []" and 3: "is_HumanMessage (last terse_scenario)"
    by (simp_all add: terse_scenario_def)
  have 4: "parse_chat_history (butlast terse_scenario) = Inr ?hist"
    by (simp add: terse_scenario_def parse_chat_history_def)
  have 5: "with_examples few_shot_kwargs (default_params (abc_model None) ++ few_shot_kwargs) =
             Inr ?params"
    by (simp add: with_examples_def few_shot_kwargs_def abc_model_def parse_examples_def
        parse_examples_loop.simps)
  have ctx: "context_for (abc_model None) ?hist = Context (Some ''You are terse'')"
    by (simp add: context_for_def context_or_none_def abc_model_def)
  have q: "content (last terse_scenario) = ''How are you?''"
    by (simp add: terse_scenario_def)
  have nodup: "\<not> duplicate_keyword (abc_model None) ?params"
    by (simp add: duplicate_keyword_def few_shot_kwargs_def)
  let ?dup = "[''context'' \<mapsto> Opaque ''Be kind'']"
  have 6: "with_examples ?dup (default_params (abc_model None) ++ ?dup) =
             Inr (default_params (abc_model None) ++ ?dup)"
    by (simp add: with_examples_def)
  have dup: "duplicate_keyword (abc_model None) (default_params (abc_model None) ++ ?dup)"
    by (simp add: duplicate_keyword_def abc_model_def)
  have g: "generate (abc_model None) terse_scenario None True None ?dup =
             (Inl DuplicateKeywordArgument, [])"
    by (rule duplicate_keyword_generate [OF 1 2 3 4 6 dup])
  have s: "stream (abc_model None) terse_scenario None True ?dup =
             (Inl DuplicateKeywordArgument, [])"
    by (rule duplicate_keyword_stream [OF 2 3 4 6 dup])
  let ?falsy = "[''examples'' \<mapsto> FalsyValue ''None'']"
  let ?fparams = "[''temperature'' \<mapsto> Opaque ''0.2''] ++ ?falsy"
  have 7: "with_examples ?falsy (default_params (abc_model None) ++ ?falsy) = Inr ?fparams"
    by (simp add: with_examples_def abc_model_def)
  have nodup': "\<not> duplicate_keyword (abc_model None) ?fparams"
    by (simp add: duplicate_keyword_def)
  show ?thesis
    using params_forwarded_once_or_twice [OF 1 2 3 4 5, of None True]
      params_forwarded_once_or_twice [OF 1 2 3 4 7, of None True] ctx q nodup nodup' g s
    by simp
qed

lemma loop_shift_from_none:
  assumes "0 < k" and "0 < k'"
  shows "case parse_chat_history_loop k xs vm None of
      Inl e \<Rightarrow> \<exists>e'. parse_chat_history_loop k' xs vm (Some c) = Inl e'
    | Inr h \<Rightarrow> chat_context h = None
        \<and> parse_chat_history_loop k' xs vm (Some c) = Inr (h\<lparr>chat_context := Some c\<rparr>)"
proof (cases "parse_chat_history_loop k xs vm None")
  case (Inl e)
  then show ?thesis
    using loop_index_shift [OF assms, where xs = xs and vm = vm and ctx = None and ctx' = "Some c"]
    by simp
next
  case (Inr h)
  then show ?thesis
    using loop_index_shift [OF assms, where xs = xs and vm = vm and ctx = None and ctx' = "Some c"]
      loop_context_kept [OF assms(1) Inr]
    by simp
qed

lemma parse_with_leading_system:
  assumes "case xs of [] \<Rightarrow> True | m # ms \<Rightarrow> \<not> is_SystemMessage m"
  shows "case parse_chat_history xs of
      Inl e \<Rightarrow> \<exists>e'. parse_chat_history (SystemMessage c # xs) = Inl e'
    | Inr h \<Rightarrow> chat_context h = None
        \<and> parse_chat_history (SystemMessage c # xs) = Inr (h\<lparr>chat_context := Some c\<rparr>)"
proof (cases xs)
  case Nil
  then show ?thesis by (simp add: parse_chat_history_def)
next
  case (Cons m ms)
  then have m: "\<not> is_SystemMessage m" using assms by simp
  have shift: "case parse_chat_history_loop (Suc 0) ms vm None of
      Inl e \<Rightarrow> \<exists>e'. parse_chat_history_loop (Suc (Suc 0)) ms vm (Some c) = Inl e'
    | Inr h \<Rightarrow> chat_context h = None
        \<and> parse_chat_history_loop (Suc (Suc 0)) ms vm (Some c) = Inr (h\<lparr>chat_context := Some c\<rparr>)"
    for vm
    by (rule loop_shift_from_none) simp_all
  show ?thesis
  proof (cases "is_AIMessage m")
    case True
    have l: "parse_chat_history xs =
        parse_chat_history_loop (Suc 0) ms [ChatMessage (content m) ''bot''] None"
      using True m by (simp add: parse_chat_history_def Cons)
    have r: "parse_chat_history (SystemMessage c # xs) =
        parse_chat_history_loop (Suc (Suc 0)) ms [ChatMessage (content m) ''bot''] (Some c)"
      using True m by (simp add: parse_chat_history_def Cons)
    show ?thesis unfolding l r by (rule shift)
  next
    case notai: False
    show ?thesis
    proof (cases "is_HumanMessage m")
      case True
      have l: "parse_chat_history xs =
          parse_chat_history_loop (Suc 0) ms [ChatMessage (content m) ''user''] None"
        using True m notai by (simp add: parse_chat_history_def Cons)
      have r: "parse_chat_history (SystemMessage c # xs) =
          parse_chat_history_loop (Suc (Suc 0)) ms [ChatMessage (content m) ''user''] (Some c)"
        using True m notai by (simp add: parse_chat_history_def Cons)
      show ?thesis unfolding l r by (rule shift)
    next
      case False
      have l: "parse_chat_history xs = Inl (InvalidMessageSequence (kind_of m) 0)"
        using False m notai by (simp add: parse_chat_history_def Cons)
      have r: "parse_chat_history (SystemMessage c # xs) =
          Inl (InvalidMessageSequence (kind_of m) (Suc 0))"
        using False m notai by (simp add: parse_chat_history_def Cons)
      show ?thesis unfolding l r by simp
    qed
  qed
qed

lemma parse_leading_system_context:
  "parse_chat_history (SystemMessage c # xs) = Inr hist \<Longrightarrow> chat_context hist = Some c"
  using loop_context_kept [of "Suc 0" xs "[]" "Some c" hist]
  by (simp add: parse_chat_history_def)

lemma stream_start_chat_context:
  "StartChat c h p \<in> set (snd (stream self messages stop run_manager kwargs)) \<Longrightarrow>
   \<exists>hist. parse_chat_history (butlast messages) = Inr hist \<and> c = context_for self hist"
  by (auto simp add: stream_def Let_def context_for_def split: if_splits sum.splits)

lemma generate_start_chat_context:
  "StartChat c h p \<in> set (snd (generate self messages stop run_manager flag kwargs)) \<Longrightarrow>
   \<exists>hist. parse_chat_history (butlast messages) = Inr hist \<and> c = context_for self hist"
proof (cases "case flag of Some b \<Rightarrow> b | None \<Rightarrow> streaming self = Some True")
  case True
  assume "StartChat c h p \<in> set (snd (generate self messages stop run_manager flag kwargs))"
  then show ?thesis
    using stream_start_chat_context [of c h p self messages stop run_manager kwargs]
    by (simp add: generate_delegates [OF True])
next
  case False
  assume "StartChat c h p \<in> set (snd (generate self messages stop run_manager flag kwargs))"
  then show ?thesis
    using False
    by (auto simp add: generate_def Let_def context_for_def split: if_splits sum.splits)
qed

lemma context_for_empty_system:
  assumes "parse_chat_history (butlast (SystemMessage [] # rest)) = Inr hist"
  shows "context_for self hist = (if is_codey_model self then NoContext else Context None)"
proof (cases rest)
  case Nil
  then show ?thesis
    using assms by (auto simp add: parse_chat_history_def context_for_def context_or_none_def)
next
  case (Cons m ms)
  then have "parse_chat_history (SystemMessage [] # butlast rest) = Inr hist"
    using assms by simp
  then have "chat_context hist = Some []" by (rule parse_leading_system_context)
  then show ?thesis by (simp add: context_for_def context_or_none_def)
qed

lemma stream_traces_agree:
  assumes "ms1 \<noteq> []" and "ms2 \<noteq> []" and "last ms1 = last ms2"
    and "case parse_chat_history (butlast ms2) of
        Inl e \<Rightarrow> \<exists>e'. parse_chat_history (butlast ms1) = Inl e'
      | Inr h \<Rightarrow> chat_context h = None
          \<and> parse_chat_history (butlast ms1) = Inr (h\<lparr>chat_context := Some []\<rparr>)"
  shows "stream self ms1 stop run_manager kwargs = stream self ms2 stop run_manager kwargs
         \<or> (snd (stream self ms1 stop run_manager kwargs) = []
            \<and> snd (stream self ms2 stop run_manager kwargs) = [])"
proof (cases "parse_chat_history (butlast ms2)")
  case (Inl e)
  then obtain e' where "parse_chat_history (butlast ms1) = Inl e'" using assms(4) by auto
  then show ?thesis using Inl assms(1-3) by (simp add: stream_def Let_def)
next
  case (Inr h)
  then have "chat_context h = None"
    and "parse_chat_history (butlast ms1) = Inr (h\<lparr>chat_context := Some []\<rparr>)"
    using assms(4) by simp_all
  then show ?thesis
    using Inr assms(1-3) by (simp add: stream_def Let_def context_or_none_def split: sum.splits)
qed

lemma generate_sync_flag:
  "\<not> (case flag of Some b \<Rightarrow> b | None \<Rightarrow> streaming self = Some True) \<Longrightarrow>
   generate self messages stop run_manager flag kwargs =
   generate self messages stop run_manager (Some False) kwargs"
  by (simp add: generate_def)

lemma generate_traces_agree:
  assumes "ms1 \<noteq> []" and "ms2 \<noteq> []" and "last ms1 = last ms2"
    and "case parse_chat_history (butlast ms2) of
        Inl e \<Rightarrow> \<exists>e'. parse_chat_history (butlast ms1) = Inl e'
      | Inr h \<Rightarrow> chat_context h = None
          \<and> parse_chat_history (butlast ms1) = Inr (h\<lparr>chat_context := Some []\<rparr>)"
  shows "snd (generate self ms1 stop run_manager flag kwargs) =
         snd (generate self ms2 stop run_manager flag kwargs)"
proof (cases "case flag of Some b \<Rightarrow> b | None \<Rightarrow> streaming self = Some True")
  case True
  show ?thesis
    using stream_traces_agree [OF assms, of self stop run_manager kwargs]
    by (auto simp add: generate_delegates [OF True])
next
  case False
  have "snd (generate self ms1 stop run_manager (Some False) kwargs) =
        snd (generate self ms2 stop run_manager (Some False) kwargs)"
  proof (cases "parse_chat_history (butlast ms2)")
    case (Inl e)
    then obtain e' where "parse_chat_history (butlast ms1) = Inl e'" using assms(4) by auto
    then show ?thesis using Inl assms(1-3) by (simp add: generate_def Let_def)
  next
    case (Inr h)
    then have "chat_context h = None"
      and "parse_chat_history (butlast ms1) = Inr (h\<lparr>chat_context := Some []\<rparr>)"
      using assms(4) by simp_all
    then show ?thesis
      using Inr assms(1-3) by (simp add: generate_def Let_def context_or_none_def split: sum.splits)
  qed
  then show ?thesis by (simp add: generate_sync_flag [OF False])
qed

text \<open>
  C9. When the first message is a system message with empty content, every
  \<^verbatim>\<open>start_chat\<close> that \<^verbatim>\<open>_generate\<close> or \<^verbatim>\<open>_stream\<close> makes gets the context
  \<^verbatim>\<open>None\<close>, never the empty string (a code model gets no context argument at all, as
  always). And when the messages after it do not start with a second system message, what
  is done to the outside is the same as for the conversation without the empty system
  message.
\<close>

theorem empty_system_message_gives_no_context:
  "(StartChat c h p \<in> set (snd (generate self (SystemMessage [] # rest) stop run_manager flag kwargs))
      \<longrightarrow> c = (if is_codey_model self then NoContext else Context None))
   \<and> (StartChat c h p \<in> set (snd (stream self (SystemMessage [] # rest) stop run_manager kwargs))
      \<longrightarrow> c = (if is_codey_model self then NoContext else Context None))
   \<and> ((case rest of [] \<Rightarrow> True | m # ms \<Rightarrow> \<not> is_SystemMessage m) \<longrightarrow>
        snd (generate self (SystemMessage [] # rest) stop run_manager flag kwargs) =
          snd (generate self rest stop run_manager flag kwargs)
        \<and> snd (stream self (SystemMessage [] # rest) stop run_manager kwargs) =
          snd (stream self rest stop run_manager kwargs))"
proof (intro conjI impI)
  assume "StartChat c h p \<in> set (snd (generate self (SystemMessage [] # rest) stop run_manager flag kwargs))"
  then obtain hist where "parse_chat_history (butlast (SystemMessage [] # rest)) = Inr hist"
    and "c = context_for self hist"
    using generate_start_chat_context by blast
  then show "c = (if is_codey_model self then NoContext else Context None)"
    using context_for_empty_system by blast
next
  assume "StartChat c h p \<in> set (snd (stream self (SystemMessage [] # rest) stop run_manager kwargs))"
  then obtain hist where "parse_chat_history (butlast (SystemMessage [] # rest)) = Inr hist"
    and "c = context_for self hist"
    using stream_start_chat_context by blast
  then show "c = (if is_codey_model self then NoContext else Context None)"
    using context_for_empty_system by blast
next
  assume first: "case rest of [] \<Rightarrow> True | m # ms \<Rightarrow> \<not> is_SystemMessage m"
  show "snd (generate self (SystemMessage [] # rest) stop run_manager flag kwargs) =
          snd (generate self rest stop run_manager flag kwargs)"
  proof (cases rest)
    case Nil
    then show ?thesis by (simp add: generate_def stream_def split: option.splits)
  next
    case (Cons m ms)
    have 1: "SystemMessage [] # rest \<noteq> []" and 2: "rest \<noteq> []"
      and 3: "last (SystemMessage [] # rest) = last rest"
      using Cons by simp_all
    have nosys: "case butlast rest of [] \<Rightarrow> True | m # ms \<Rightarrow> \<not> is_SystemMessage m"
      using first Cons by (cases ms) simp_all
    have b: "butlast (SystemMessage [] # rest) = SystemMessage [] # butlast rest"
      using 2 by simp
    have 4: "case parse_chat_history (butlast rest) of
        Inl e \<Rightarrow> \<exists>e'. parse_chat_history (butlast (SystemMessage [] # rest)) = Inl e'
      | Inr h \<Rightarrow> chat_context h = None
          \<and> parse_chat_history (butlast (SystemMessage [] # rest)) = Inr (h\<lparr>chat_context := Some []\<rparr>)"
      unfolding b by (rule parse_with_leading_system [OF nosys])
    show ?thesis by (rule generate_traces_agree [OF 1 2 3 4])
  qed
next
  assume first: "case rest of [] \<Rightarrow> True | m # ms \<Rightarrow> \<not> is_SystemMessage m"
  show "snd (stream self (SystemMessage [] # rest) stop run_manager kwargs) =
          snd (stream self rest stop run_manager kwargs)"
  proof (cases rest)
    case Nil
    then show ?thesis by (simp add: stream_def)
  next
    case (Cons m ms)
    have 1: "SystemMessage [] # rest \<noteq> []" and 2: "rest \<noteq> []"
      and 3: "last (SystemMessage [] # rest) = last rest"
      using Cons by simp_all
    have nosys: "case butlast rest of [] \<Rightarrow> True | m # ms \<Rightarrow> \<not> is_SystemMessage m"
      using first Cons by (cases ms) simp_all
    have b: "butlast (SystemMessage [] # rest) = SystemMessage [] # butlast rest"
      using 2 by simp
    have 4: "case parse_chat_history (butlast rest) of
        Inl e \<Rightarrow> \<exists>e'. parse_chat_history (butlast (SystemMessage [] # rest)) = Inl e'
      | Inr h \<Rightarrow> chat_context h = None
          \<and> parse_chat_history (butlast (SystemMessage [] # rest)) = Inr (h\<lparr>chat_context := Some []\<rparr>)"
      unfolding b by (rule parse_with_leading_system [OF nosys])
    show ?thesis
      using stream_traces_agree [OF 1 2 3 4, of self stop run_manager kwargs] by auto
  qed
qed

theorem empty_system_message_gives_no_context_witness:
  "StartChat (Context None) [] [''temperature'' \<mapsto> Opaque ''0.2'']
     \<in> set (snd (generate (abc_model None) [SystemMessage [], HumanMessage ''Hi''] None False
                  (Some False) Map.empty))
   \<and> StartChat (Context None) [] [''temperature'' \<mapsto> Opaque ''0.2'']
     \<in> set (snd (stream (abc_model None) [SystemMessage [], HumanMessage ''Hi''] None False Map.empty))
   \<and> snd (generate (abc_model None) [SystemMessage [], HumanMessage ''Hi''] None False
            (Some False) Map.empty) =
     snd (generate (abc_model None) [HumanMessage ''Hi''] None False (Some False) Map.empty)
   \<and> snd (stream (abc_model None) [SystemMessage [], HumanMessage ''Hi''] None False Map.empty) =
     snd (stream (abc_model None) [HumanMessage ''Hi''] None False Map.empty)"
proof -
  have g: "StartChat (Context None) [] [''temperature'' \<mapsto> Opaque ''0.2'']
     \<in> set (snd (generate (abc_model None) [SystemMessage [], HumanMessage ''Hi''] None False
                  (Some False) Map.empty))"
    by (simp add: generate_def abc_model_def parse_chat_history_def with_examples_def
        context_or_none_def duplicate_keyword_def Let_def)
  have s: "StartChat (Context None) [] [''temperature'' \<mapsto> Opaque ''0.2'']
     \<in> set (snd (stream (abc_model None) [SystemMessage [], HumanMessage ''Hi''] None False Map.empty))"
    by (simp add: stream_def abc_model_def parse_chat_history_def with_examples_def
        context_or_none_def duplicate_keyword_def Let_def)
  show ?thesis
    using empty_system_message_gives_no_context
      [of "Context None" "[]" "[''temperature'' \<mapsto> Opaque ''0.2'']" "abc_model None"
          "[HumanMessage ''Hi'']" None False "Some False" Map.empty] g s
    by simp
qed

section \<open>The stream flag and the result of the streaming mode\<close>

text \<open>
  C2: in the streaming mode \<^verbatim>\<open>_generate\<close> does not return one generation. For the
  stream of partial responses \<open>A\<close>, \<open>B\<close>, \<open>C\<close>, with the stream flag set and no stop word,
  line 143 returns \<^verbatim>\<open>list(self._stream(...))\<close> as the generations: three chunks with
  the texts \<open>A\<close>, \<open>B\<close>, \<open>C\<close>, and not one ai generation with the text \<open>ABC\<close>, neither as a
  message nor as a chunk. The sync path of the same function, on the same messages,
  returns one ai generation with the whole reply.
\<close>

theorem generate_streaming_not_one_generation:
  "fst (generate (abc_model (Some True)) [HumanMessage ''Hi''] None False (Some True) Map.empty)
     = Inr (ChatResult [ChatGenerationChunk (AIMessageChunk ''A''),
                        ChatGenerationChunk (AIMessageChunk ''B''),
                        ChatGenerationChunk (AIMessageChunk ''C'')])
   \<and> fst (generate (abc_model (Some True)) [HumanMessage ''Hi''] None False (Some True) Map.empty)
     \<noteq> Inr (ChatResult [ChatGeneration (AIMessage ''ABC'')])
   \<and> fst (generate (abc_model (Some True)) [HumanMessage ''Hi''] None False (Some True) Map.empty)
     \<noteq> Inr (ChatResult [ChatGenerationChunk (AIMessageChunk ''ABC'')])
   \<and> fst (generate (abc_model (Some True)) [HumanMessage ''Hi''] None False (Some False) Map.empty)
     = Inr (ChatResult [ChatGeneration (AIMessage ''Fine'')])"
  by (simp add: generate_def stream_def abc_model_def abc_client_def parse_chat_history_def
      with_examples_def context_or_none_def enforce_stop_words_def duplicate_keyword_def Let_def)

text \<open>
  C1: the instance default is not consulted by a call that leaves the stream flag out.
  The model has \<^verbatim>\<open>streaming=True\<close>. A call of \<^verbatim>\<open>_generate\<close> without the keyword
  \<^verbatim>\<open>stream\<close> binds the parameter to its default \<^verbatim>\<open>False\<close>, which is not
  \<^verbatim>\<open>None\<close>, so the sync path runs: \<^verbatim>\<open>send_message\<close> is called and one generation
  comes back. Only a call that passes \<^verbatim>\<open>stream=None\<close> reaches
  \<^verbatim>\<open>self.streaming\<close> and streams.
\<close>

theorem generate_call_without_flag_ignores_streaming:
  "generate_call (abc_model (Some True)) [HumanMessage ''Hi''] None False None Map.empty =
     (Inr (ChatResult [ChatGeneration (AIMessage ''Fine'')]),
      [StartChat (Context None) [] [''temperature'' \<mapsto> Opaque ''0.2''],
       SendMessage ''Hi'' Map.empty])
   \<and> generate_call (abc_model (Some True)) [HumanMessage ''Hi''] None False (Some None) Map.empty =
     (Inr (ChatResult [ChatGenerationChunk (AIMessageChunk ''A''),
                       ChatGenerationChunk (AIMessageChunk ''B''),
                       ChatGenerationChunk (AIMessageChunk ''C'')]),
      [StartChat (Context None) [] [''temperature'' \<mapsto> Opaque ''0.2''],
       SendMessageStreaming ''Hi'' [''temperature'' \<mapsto> Opaque ''0.2'']])"
  by (simp add: generate_call_def generate_def stream_def abc_model_def abc_client_def
      parse_chat_history_def with_examples_def context_or_none_def enforce_stop_words_def
      duplicate_keyword_def Let_def)

end
